theory Spec2Isabelle
  imports Complex_Main "HOL-Library.Word"
begin

section \<open>Data model of \<open>measure_base.h\<close>\<close>

text \<open>
  The library is compiled with \<open>MEASURE_IS_ON\<close> at its default value 1.
  Ticks and tick differences are 64-bit values (\<open>int64_t\<close>, \<open>uint64_t\<close> or the
  64-bit count of a \<open>std::chrono\<close> duration, depending on the backend); \<open>+\<close> and
  \<open>-\<close> on them are the arithmetic of \<open>64 word\<close>, and a signed backend reads the
  same bits through \<open>sint\<close>.
\<close>

type_synonym TimePoint = "64 word"
type_synonym TimeDiff = "64 word"
type_synonym uint64_t = "64 word"
type_synonym int32_t = "32 word"

text \<open>\<open>struct TMeasureRecord\<close>: the three data members, in declaration order.\<close>

record MeasureRecord =
  name :: string
  totalTime :: TimeDiff
  numCall :: uint64_t

text \<open>\<open>struct MeasureRecordRSafe : public MeasureRecord\<close> adds the member \<open>depth\<close>.\<close>

record MeasureRecordRSafe = MeasureRecord +
  depth :: int32_t

text \<open>
  Undefined behaviour and library exceptions that the modelled code can run into are
  values of this type.
\<close>

datatype error =
    SignedOverflow
  | IndeterminateValue
  | DivisionByZero
  | FloatToIntegerRange
  | LengthError

subsection \<open>The clock\<close>

text \<open>
  \<open>MeasureBackend::GetTick()\<close> reads a clock outside the program. The clock is the
  sequence of values its successive reads return, together with the number of reads made
  so far; nothing is assumed about the sequence.
\<close>

record clock =
  ticks :: "nat \<Rightarrow> TimePoint"
  reads :: nat

definition GetTick :: "clock \<Rightarrow> TimePoint \<times> clock" where
  "GetTick c = (ticks c (reads c), c\<lparr>reads := Suc (reads c)\<rparr>)"

subsection \<open>\<open>TMeasureRecord\<close>: \<open>Now\<close> and \<open>StopMeasure\<close>\<close>

definition Now :: "'a MeasureRecord_scheme \<Rightarrow> clock \<Rightarrow> TimePoint \<times> clock" where
  "Now r c = GetTick c"

text \<open>\<open>totalTime += MeasureBackend::GetTick() - start; numCall++;\<close>\<close>

definition StopMeasure ::
    "TimePoint \<Rightarrow> clock \<times> 'a MeasureRecord_scheme \<Rightarrow> clock \<times> 'a MeasureRecord_scheme" where
  "StopMeasure start s =
     (case s of (c, r) \<Rightarrow>
        (case GetTick c of (now, c') \<Rightarrow>
           (let r1 = r\<lparr>totalTime := totalTime r + (now - start)\<rparr>;
                r2 = r1\<lparr>numCall := numCall r1 + 1\<rparr>
            in (c', r2))))"

subsection \<open>\<open>TMeasureScope\<close>\<close>

text \<open>
  The scope's \<open>record\<close> member points to the one record the state carries; its other
  member is the captured start tick.
\<close>

record TMeasureScope =
  start :: TimePoint

definition TMeasureScope_ctor ::
    "clock \<times> 'a MeasureRecord_scheme \<Rightarrow> TMeasureScope \<times> (clock \<times> 'a MeasureRecord_scheme)" where
  "TMeasureScope_ctor s =
     (case s of (c, r) \<Rightarrow>
        (case Now r c of (t, c') \<Rightarrow> (\<lparr>start = t\<rparr>, (c', r))))"

definition TMeasureScope_dtor ::
    "TMeasureScope \<Rightarrow> clock \<times> 'a MeasureRecord_scheme \<Rightarrow> clock \<times> 'a MeasureRecord_scheme" where
  "TMeasureScope_dtor scope s = StopMeasure (start scope) s"

text \<open>
  \<open>n\<close> successive measured scopes on one record, as in the loops of
  \<open>measure_test.cpp\<close>: \<open>for (...) { Scope scope(&record); ... }\<close>.
\<close>

fun start_stop_pairs ::
    "nat \<Rightarrow> clock \<times> 'a MeasureRecord_scheme \<Rightarrow> clock \<times> 'a MeasureRecord_scheme" where
  "start_stop_pairs 0 s = s"
| "start_stop_pairs (Suc n) s =
     (case TMeasureScope_ctor s of (scope, s1) \<Rightarrow>
        start_stop_pairs n (TMeasureScope_dtor scope s1))"

text \<open>The elapsed delta of the \<open>i\<close>-th pair that starts at read \<open>k\<close> of the clock.\<close>

definition delta :: "clock \<Rightarrow> nat \<Rightarrow> nat \<Rightarrow> TimeDiff" where
  "delta c k i = ticks c (k + 2 * i + 1) - ticks c (k + 2 * i)"

subsection \<open>\<open>MeasureRecordRSafe\<close>: the depth counter\<close>

text \<open>
  \<open>depth\<close> is an \<open>int32_t\<close>. Incrementing it at \<open>INT32_MAX\<close> or decrementing it at
  \<open>INT32_MIN\<close> is signed overflow, which C++ leaves undefined: the model returns
  \<open>SignedOverflow\<close> there. The returned flag is \<open>++depth == 1\<close>, respectively
  \<open>--depth == 0\<close>.
\<close>

definition IncrementDepth ::
    "'a MeasureRecordRSafe_scheme \<Rightarrow> error + (bool \<times> 'a MeasureRecordRSafe_scheme)" where
  "IncrementDepth r =
     (if depth r = 0x7FFFFFFF then Inl SignedOverflow
      else (let r' = r\<lparr>depth := depth r + 1\<rparr> in Inr (depth r' = 1, r')))"

definition DecrementDepth ::
    "'a MeasureRecordRSafe_scheme \<Rightarrow> error + (bool \<times> 'a MeasureRecordRSafe_scheme)" where
  "DecrementDepth r =
     (if depth r = 0x80000000 then Inl SignedOverflow
      else (let r' = r\<lparr>depth := depth r - 1\<rparr> in Inr (depth r' = 0, r')))"

definition GetDepth :: "'a MeasureRecordRSafe_scheme \<Rightarrow> int32_t" where
  "GetDepth r = depth r"

subsection \<open>\<open>MeasureScopeRSafe\<close>\<close>

text \<open>
  The constructor assigns \<open>start\<close> only when \<open>IncrementDepth\<close> returns true; otherwise
  the member keeps no value (\<open>None\<close>), and a destructor that read it would read an
  indeterminate value.
\<close>

record MeasureScopeRSafe =
  start_rs :: "TimePoint option"

definition MeasureScopeRSafe_ctor ::
    "clock \<times> 'a MeasureRecordRSafe_scheme
      \<Rightarrow> error + (MeasureScopeRSafe \<times> (clock \<times> 'a MeasureRecordRSafe_scheme))" where
  "MeasureScopeRSafe_ctor s =
     (case s of (c, r) \<Rightarrow>
        (case IncrementDepth r of
           Inl e \<Rightarrow> Inl e
         | Inr (outermost, r1) \<Rightarrow>
             if outermost
             then (case Now r1 c of (t, c1) \<Rightarrow> Inr (\<lparr>start_rs = Some t\<rparr>, (c1, r1)))
             else Inr (\<lparr>start_rs = None\<rparr>, (c, r1))))"

definition MeasureScopeRSafe_dtor ::
    "MeasureScopeRSafe \<Rightarrow> clock \<times> 'a MeasureRecordRSafe_scheme
      \<Rightarrow> error + (clock \<times> 'a MeasureRecordRSafe_scheme)" where
  "MeasureScopeRSafe_dtor scope s =
     (case s of (c, r) \<Rightarrow>
        (case DecrementDepth r of
           Inl e \<Rightarrow> Inl e
         | Inr (outermost, r1) \<Rightarrow>
             if outermost
             then (case start_rs scope of
                     None \<Rightarrow> Inl IndeterminateValue
                   | Some st \<Rightarrow> Inr (StopMeasure st (c, r1)))
             else Inr (c, r1)))"

text \<open>
  \<open>RecursiveFunction(level)\<close> of \<open>measure_samples.cpp\<close>, reduced to its recursion-safe
  scope: the scope is constructed, the function calls itself while \<open>level > 0\<close>, and the
  scope is destroyed on return. A call with \<open>level\<close> has nesting depth \<open>level + 1\<close>.
\<close>

fun RecursiveFunction ::
    "nat \<Rightarrow> clock \<times> 'a MeasureRecordRSafe_scheme
      \<Rightarrow> error + (clock \<times> 'a MeasureRecordRSafe_scheme)" where
  "RecursiveFunction 0 s =
     (case MeasureScopeRSafe_ctor s of
        Inl e \<Rightarrow> Inl e
      | Inr (scope, s1) \<Rightarrow> MeasureScopeRSafe_dtor scope s1)"
| "RecursiveFunction (Suc level) s =
     (case MeasureScopeRSafe_ctor s of
        Inl e \<Rightarrow> Inl e
      | Inr (scope, s1) \<Rightarrow>
          (case RecursiveFunction level s1 of
             Inl e \<Rightarrow> Inl e
           | Inr s2 \<Rightarrow> MeasureScopeRSafe_dtor scope s2))"

text \<open>\<open>t\<close> top-level invocations, one after the other.\<close>

fun top_level_calls ::
    "nat \<Rightarrow> nat \<Rightarrow> clock \<times> 'a MeasureRecordRSafe_scheme
      \<Rightarrow> error + (clock \<times> 'a MeasureRecordRSafe_scheme)" where
  "top_level_calls 0 level s = Inr s"
| "top_level_calls (Suc t) level s =
     (case RecursiveFunction level s of
        Inl e \<Rightarrow> Inl e
      | Inr s1 \<Rightarrow> top_level_calls t level s1)"

text \<open>
  A sequence of calls of the two depth operations on one record. The run yields, for each
  call that completed, the flag it returned and the depth it left, and then the record,
  or the error that stopped the run.
\<close>

datatype depth_call = Inc | Dec

fun depth_call_run ::
    "depth_call \<Rightarrow> 'a MeasureRecordRSafe_scheme
      \<Rightarrow> error + (bool \<times> 'a MeasureRecordRSafe_scheme)" where
  "depth_call_run Inc r = IncrementDepth r"
| "depth_call_run Dec r = DecrementDepth r"

fun depth_calls ::
    "depth_call list \<Rightarrow> 'a MeasureRecordRSafe_scheme
      \<Rightarrow> (depth_call \<times> bool \<times> int32_t) list \<times> (error + 'a MeasureRecordRSafe_scheme)" where
  "depth_calls [] r = ([], Inr r)"
| "depth_calls (c # cs) r =
     (case depth_call_run c r of
        Inl e \<Rightarrow> ([], Inl e)
      | Inr (flag, r1) \<Rightarrow>
          (case depth_calls cs r1 of (tr, res) \<Rightarrow> ((c, flag, GetDepth r1) # tr, res)))"

text \<open>
  Scope discipline: with \<open>k\<close> scopes open, every \<open>Dec\<close> closes a scope that an earlier
  \<open>Inc\<close> opened. \<open>max_open\<close> is the largest number of scopes open at once.
\<close>

fun properly_nested :: "nat \<Rightarrow> depth_call list \<Rightarrow> bool" where
  "properly_nested k [] = True"
| "properly_nested k (Inc # cs) = properly_nested (Suc k) cs"
| "properly_nested k (Dec # cs) = (0 < k \<and> properly_nested (k - 1) cs)"

fun max_open :: "nat \<Rightarrow> depth_call list \<Rightarrow> nat" where
  "max_open k [] = k"
| "max_open k (Inc # cs) = max k (max_open (Suc k) cs)"
| "max_open k (Dec # cs) = max k (max_open (k - 1) cs)"

section \<open>The databases\<close>

text \<open>
  Records are reached through pointers. The store maps every address to the record object
  there; records have static storage or are owned by the dynamic database, which never
  erases an entry, so a registered address always holds a live record. \<open>next_addr\<close> is
  the allocation frontier of \<open>operator new\<close>. The store is generic in the members a
  derived record type adds, as the databases are templates over the record type.

  \<open>records\<close> is \<open>MeasureDatabase::records\<close>, \<open>dynamicRecords\<close> is
  \<open>DynamicMeasureDatabase::dynamicRecords\<close> (a stored \<open>unique_ptr\<close> may be null:
  \<open>Some None\<close>), and \<open>sync\<close> logs every acquisition and release of the two mutexes.
\<close>

type_synonym addr = nat

datatype mutex_id = DatabaseMutex | DynamicDatabaseMutex

datatype sync_event = Lock mutex_id | Unlock mutex_id

record 'a world =
  heap :: "addr \<Rightarrow> 'a MeasureRecord_scheme"
  next_addr :: addr
  records :: "addr list"
  dynamicRecords :: "string \<rightharpoonup> addr option"
  sync :: "sync_event list"

text \<open>Construction and destruction of a \<open>std::lock_guard\<close>.\<close>

definition lock_guard :: "mutex_id \<Rightarrow> 'a world \<Rightarrow> 'a world" where
  "lock_guard m w = w\<lparr>sync := sync w @ [Lock m]\<rparr>"

definition lock_guard_release :: "mutex_id \<Rightarrow> 'a world \<Rightarrow> 'a world" where
  "lock_guard_release m w = w\<lparr>sync := sync w @ [Unlock m]\<rparr>"

subsection \<open>\<open>MeasureDatabase\<close>\<close>

definition AddRecord :: "addr \<Rightarrow> 'a world \<Rightarrow> 'a world" where
  "AddRecord mr w =
     (let w1 = lock_guard DatabaseMutex w;
          w2 = w1\<lparr>records := records w1 @ [mr]\<rparr>
      in lock_guard_release DatabaseMutex w2)"

text \<open>
  The constructor \<open>TMeasureRecord(name, autoRegister)\<close> run on the object at \<open>this\<close>;
  \<open>derived\<close> holds the members of a derived record type with their default member
  initialisers.
\<close>

definition TMeasureRecord :: "addr \<Rightarrow> string \<Rightarrow> bool \<Rightarrow> 'a \<Rightarrow> 'a world \<Rightarrow> 'a world" where
  "TMeasureRecord this nm autoRegister derived w =
     (let w1 = w\<lparr>heap := (heap w)
                 (this := \<lparr>name = nm, totalTime = 0, numCall = 0, \<dots> = derived\<rparr>)\<rparr>
      in if autoRegister then AddRecord this w1 else w1)"

text \<open>\<open>for (MeasureRecord* mr : records) if (mr->name == name) return mr; return nullptr;\<close>\<close>

fun FindMeasureRecord_loop ::
    "(addr \<Rightarrow> 'a MeasureRecord_scheme) \<Rightarrow> string \<Rightarrow> addr list \<Rightarrow> addr option" where
  "FindMeasureRecord_loop h nm [] = None"
| "FindMeasureRecord_loop h nm (mr # rest) =
     (if name (h mr) = nm then Some mr else FindMeasureRecord_loop h nm rest)"

definition FindMeasureRecord :: "string \<Rightarrow> 'a world \<Rightarrow> addr option" where
  "FindMeasureRecord nm w = FindMeasureRecord_loop (heap w) nm (records w)"

text \<open>\<open>for (MeasureRecord* mr : records) { mr->numCall = 0; mr->totalTime = {}; }\<close>\<close>

fun ResetAll_loop ::
    "addr list \<Rightarrow> (addr \<Rightarrow> 'a MeasureRecord_scheme) \<Rightarrow> (addr \<Rightarrow> 'a MeasureRecord_scheme)" where
  "ResetAll_loop [] h = h"
| "ResetAll_loop (mr # rest) h =
     ResetAll_loop rest (h(mr := ((h mr)\<lparr>numCall := 0\<rparr>)\<lparr>totalTime := 0\<rparr>))"

definition ResetAll :: "'a world \<Rightarrow> 'a world" where
  "ResetAll w = w\<lparr>heap := ResetAll_loop (records w) (heap w)\<rparr>"

subsection \<open>\<open>DynamicMeasureDatabase\<close>\<close>

text \<open>
  \<open>new\<close> returns storage that no object occupies. Allocation failure is not modelled.
\<close>

definition operator_new :: "'a world \<Rightarrow> addr \<times> 'a world" where
  "operator_new w = (next_addr w, w\<lparr>next_addr := Suc (next_addr w)\<rparr>)"

text \<open>
  The lookup, then \<open>emplace(name, nullptr)\<close>, then the assignment of
  \<open>new MeasureRecord(name)\<close> (whose constructor registers the record, \<open>autoRegister\<close>
  being defaulted to true) to the emplaced \<open>unique_ptr\<close>. The result is a pointer:
  \<open>None\<close> is \<open>nullptr\<close>.
\<close>

definition GetOrAddDynamicRecord :: "'a \<Rightarrow> string \<Rightarrow> 'a world \<Rightarrow> addr option \<times> 'a world" where
  "GetOrAddDynamicRecord derived nm w =
     (let w0 = lock_guard DynamicDatabaseMutex w in
      case dynamicRecords w0 nm of
        Some p \<Rightarrow> (p, lock_guard_release DynamicDatabaseMutex w0)
      | None \<Rightarrow>
          (let w1 = w0\<lparr>dynamicRecords := (dynamicRecords w0)(nm \<mapsto> None)\<rparr> in
           case operator_new w1 of (this, w2) \<Rightarrow>
             (let w3 = TMeasureRecord this nm True derived w2;
                  w4 = w3\<lparr>dynamicRecords := (dynamicRecords w3)(nm \<mapsto> Some this)\<rparr>
              in (Some this, lock_guard_release DynamicDatabaseMutex w4))))"

text \<open>Successive calls, one per name of the list, with the pointers they return.\<close>

fun GetOrAddDynamicRecord_calls ::
    "'a \<Rightarrow> string list \<Rightarrow> 'a world \<Rightarrow> addr option list \<times> 'a world" where
  "GetOrAddDynamicRecord_calls derived [] w = ([], w)"
| "GetOrAddDynamicRecord_calls derived (nm # nms) w =
     (case GetOrAddDynamicRecord derived nm w of (p, w1) \<Rightarrow>
        (case GetOrAddDynamicRecord_calls derived nms w1 of (ps, w2) \<Rightarrow> (p # ps, w2)))"

text \<open>
  The state of a process before any record exists, and the invariant of the dynamic
  database: no stored pointer is null, every stored address is below the allocation
  frontier, and different names own different records.
\<close>

definition initial_world :: "(addr \<Rightarrow> 'a MeasureRecord_scheme) \<Rightarrow> 'a world" where
  "initial_world h =
     \<lparr>heap = h, next_addr = 0, records = [], dynamicRecords = Map.empty, sync = []\<rparr>"

definition dynamic_inv :: "'a world \<Rightarrow> bool" where
  "dynamic_inv w \<longleftrightarrow>
     (\<forall>nm p. dynamicRecords w nm = Some p \<longrightarrow> (\<exists>a. p = Some a \<and> a < next_addr w)) \<and>
     (\<forall>nm nm' p. dynamicRecords w nm = Some p \<and> dynamicRecords w nm' = Some p \<longrightarrow> nm = nm')"

text \<open>
  A database with three registered records, two of them named \<open>A\<close>, after some
  measurements; the third record has not been stopped yet.
\<close>

definition example_world :: "unit world" where
  "example_world =
     \<lparr>heap = (\<lambda>a. if a = 1 then \<lparr>name = ''B'', totalTime = 7, numCall = 2\<rparr>
                   else if a = 2 then \<lparr>name = ''A'', totalTime = 0, numCall = 0\<rparr>
                   else \<lparr>name = ''A'', totalTime = 5, numCall = 1\<rparr>),
      next_addr = 3, records = [0, 1, 2], dynamicRecords = Map.empty, sync = []\<rparr>"

section \<open>The reports\<close>

text \<open>
  A backend supplies the banner title and the conversion of a tick difference to seconds;
  \<open>MeasureBackend\<close> is the null backend of \<open>measure_base.h\<close>, \<open>CppBackend\<close> the one of
  \<open>cpp_measure.h\<close>. A \<open>double\<close> is modelled by the real number it stands for: the
  branches of the reports depend on a \<open>double\<close> only through the test \<open>totalSec < 0\<close>,
  and the conversion to seconds keeps the sign of the tick difference.
\<close>

record backend =
  GetMeasureTitle :: string
  TimeDiffToSec :: "TimeDiff \<Rightarrow> real"

definition MeasureBackend :: backend where
  "MeasureBackend =
     \<lparr>GetMeasureTitle = ''VeryPreciseMeasure'',
      TimeDiffToSec = (\<lambda>time. real_of_int (sint time) / 3200000000)\<rparr>"

definition CppBackend :: backend where
  "CppBackend =
     \<lparr>GetMeasureTitle = ''cpp times'',
      TimeDiffToSec = (\<lambda>time. real_of_int (sint time) / 1000000000)\<rparr>"

definition GetTotalSec :: "backend \<Rightarrow> 'a MeasureRecord_scheme \<Rightarrow> real" where
  "GetTotalSec b r = TimeDiffToSec b (totalTime r)"

text \<open>
  What a report writes is the sequence of items it inserts into the stream: manipulators
  (\<open>setw\<close>, \<open>fixed\<close>, \<open>endl\<close>), strings, unsigned integers and doubles.
\<close>

datatype item = Setw nat | Str string | UInt uint64_t | Fixed | Dbl real | Endl

subsection \<open>\<open>MeasureUtils\<close>\<close>

text \<open>\<open>std::to_string\<close> of an unsigned integer: its decimal digits.\<close>

fun to_string :: "nat \<Rightarrow> string" where
  "to_string n =
     (if n < 10 then [''0123456789'' ! n]
      else to_string (n div 10) @ [''0123456789'' ! (n mod 10)])"

text \<open>\<open>int n = int(s.length()) - 3; while (n > 0) { s.insert(n, 1, separator); n -= 3; }\<close>\<close>

function FormatWithSeparator_loop :: "string \<Rightarrow> int \<Rightarrow> char \<Rightarrow> string" where
  "FormatWithSeparator_loop s n separator =
     (if 0 < n
      then FormatWithSeparator_loop (take (nat n) s @ [separator] @ drop (nat n) s) (n - 3) separator
      else s)"
  by pat_completeness auto
termination
  by (relation "measure (\<lambda>(s, n, separator). nat n)") auto

definition FormatWithSeparator :: "uint64_t \<Rightarrow> char \<Rightarrow> string" where
  "FormatWithSeparator num separator =
     (let s = to_string (unat num) in
      FormatWithSeparator_loop s (int (length s) - 3) separator)"

text \<open>
  The conversion \<open>uint64_t(x)\<close> of a double truncates towards zero and is undefined when
  the truncated value is not a \<open>uint64_t\<close>; \<open>double(n)\<close> of an unsigned integer is its
  value.
\<close>

definition uint64_of_double :: "real \<Rightarrow> error + uint64_t" where
  "uint64_of_double x =
     (let t = (if 0 \<le> x then \<lfloor>x\<rfloor> else \<lceil>x\<rceil>) in
      if 0 \<le> t \<and> t < 2 ^ 64 then Inr (word_of_int t) else Inl FloatToIntegerRange)"

definition double_of_uint64 :: "uint64_t \<Rightarrow> real" where
  "double_of_uint64 n = real (unat n)"

definition TimeToStrNs :: "real \<Rightarrow> error + string" where
  "TimeToStrNs sec =
     (case uint64_of_double (sec * 1000000000) of
        Inl e \<Rightarrow> Inl e
      | Inr n \<Rightarrow> Inr (FormatWithSeparator n (CHR 0x27)))"

text \<open>A division of doubles, with the divisor checked.\<close>

definition fdiv :: "real \<Rightarrow> real \<Rightarrow> error + real" where
  "fdiv x y = (if y = 0 then Inl DivisionByZero else Inr (x / y))"

text \<open>
  \<open>std::string(count, ch)\<close>. A count of \<open>2 ^ 62\<close> or more is beyond what any string can
  hold, and the constructor throws.
\<close>

definition string_fill :: "64 word \<Rightarrow> char \<Rightarrow> error + string" where
  "string_fill count ch =
     (if 2 ^ 62 \<le> unat count then Inl LengthError else Inr (replicate (unat count) ch))"

subsection \<open>\<open>MeasureDatabase::PrintReport\<close>\<close>

text \<open>The body of the loop over the records: one row.\<close>

definition PrintReport_row :: "backend \<Rightarrow> 'a MeasureRecord_scheme \<Rightarrow> error + item list" where
  "PrintReport_row b measureRecord =
     (let totalSec = GetTotalSec b measureRecord in
      if totalSec < 0 \<or> numCall measureRecord = 0
      then Inr [Setw 40, Str (name measureRecord), Setw 12, UInt (numCall measureRecord),
                Str ''\<newline>'']
      else
        (case TimeToStrNs totalSec of
           Inl e \<Rightarrow> Inl e
         | Inr total_str \<Rightarrow>
             (case fdiv totalSec (double_of_uint64 (numCall measureRecord)) of
                Inl e \<Rightarrow> Inl e
              | Inr avg \<Rightarrow>
                  (case TimeToStrNs avg of
                     Inl e \<Rightarrow> Inl e
                   | Inr average_str \<Rightarrow>
                       Inr [Setw 40, Str (name measureRecord),
                            Setw 12, UInt (numCall measureRecord),
                            Setw 17, Str total_str,
                            Setw 17, Str average_str,
                            Str ''\<newline>'']))))"

fun PrintReport_loop ::
    "backend \<Rightarrow> (addr \<Rightarrow> 'a MeasureRecord_scheme) \<Rightarrow> addr list \<Rightarrow> error + item list" where
  "PrintReport_loop b h [] = Inr []"
| "PrintReport_loop b h (mr # rest) =
     (case PrintReport_row b (h mr) of
        Inl e \<Rightarrow> Inl e
      | Inr row \<Rightarrow>
          (case PrintReport_loop b h rest of
             Inl e \<Rightarrow> Inl e
           | Inr rows \<Rightarrow> Inr (row @ rows)))"

text \<open>
  \<open>PrintReport\<close> (its parameter \<open>frequencyMeasureTimeSeconds\<close> is unused). \<open>width\<close> and
  \<open>titleLen\<close> are \<open>size_t\<close>, so the length of the pad is computed in 64-bit unsigned
  arithmetic.
\<close>

definition PrintReport :: "backend \<Rightarrow> 'a world \<Rightarrow> (error + item list) \<times> 'a world" where
  "PrintReport b w =
     (if records w \<noteq> []
      then
        (let width = (86 :: 64 word);
             title = GetMeasureTitle b;
             titleLen = (of_nat (length title) :: 64 word)
         in case string_fill ((width - titleLen) div 2 - 1) (CHR ''-'') of
              Inl e \<Rightarrow> (Inl e, w)
            | Inr pad \<Rightarrow>
                (case PrintReport_loop b (heap w) (records w) of
                   Inl e \<Rightarrow> (Inl e, w)
                 | Inr rows \<Rightarrow>
                     (Inr ([Str pad, Str '' '', Str title, Str '' '', Str pad,
                            Str (if titleLen mod 2 \<noteq> 0 then ''-'' else []), Str ''\<newline>'']
                           @ [Setw 40, Str ''Name'', Setw 12, Str ''Calls'',
                              Setw 17, Str ''Total (ns)'', Setw 17, Str ''Average (ns)'',
                              Str ''\<newline>'']
                           @ [Str (replicate (unat width) (CHR ''-'')), Endl]
                           @ rows
                           @ [Str (replicate (unat width) (CHR ''-'')), Endl]), w)))
      else (Inr [], w))"

subsection \<open>\<open>CsvReport\<close>\<close>

text \<open>
  Modelled from the spec: \<open>MeasureDatabase::GetRecords\<close>, which \<open>CsvReport\<close> calls and
  \<open>measure_base.h\<close> does not declare; it gives read access to the database's ordered
  record sequence.
\<close>

definition GetRecords :: "'a world \<Rightarrow> addr list" where
  "GetRecords w = records w"

text \<open>
  Modelled from the spec: \<open>MeasureDatabase::GetMutex\<close>, which \<open>CsvReport\<close> calls and
  \<open>measure_base.h\<close> does not declare; it is the lock that guards the record sequence.
\<close>

definition GetMutex :: mutex_id where
  "GetMutex = DatabaseMutex"

definition CsvReport_row :: "backend \<Rightarrow> 'a MeasureRecord_scheme \<Rightarrow> error + item list" where
  "CsvReport_row b measureRecord =
     (let totalSec = GetTotalSec b measureRecord in
      if totalSec < 0 \<or> numCall measureRecord = 0
      then Inr [Str (name measureRecord), Str '','',
                UInt (numCall measureRecord), Str '','',
                Str '',\<newline>'']
      else
        (case fdiv (totalSec * 1000000000) (double_of_uint64 (numCall measureRecord)) of
           Inl e \<Rightarrow> Inl e
         | Inr avg \<Rightarrow>
             Inr [Str (name measureRecord), Str '','',
                  UInt (numCall measureRecord), Str '','',
                  Fixed, Dbl (totalSec * 1000000000), Str '','',
                  Fixed, Dbl avg,
                  Str ''\<newline>'']))"

fun CsvReport_loop ::
    "backend \<Rightarrow> (addr \<Rightarrow> 'a MeasureRecord_scheme) \<Rightarrow> addr list \<Rightarrow> error + item list" where
  "CsvReport_loop b h [] = Inr []"
| "CsvReport_loop b h (mr # rest) =
     (case CsvReport_row b (h mr) of
        Inl e \<Rightarrow> Inl e
      | Inr row \<Rightarrow>
          (case CsvReport_loop b h rest of
             Inl e \<Rightarrow> Inl e
           | Inr rows \<Rightarrow> Inr (row @ rows)))"

definition CsvReport :: "backend \<Rightarrow> 'a world \<Rightarrow> (error + item list) \<times> 'a world" where
  "CsvReport b w =
     (let w1 = lock_guard GetMutex w;
          recs = GetRecords w1;
          out = (if recs \<noteq> []
                 then (case CsvReport_loop b (heap w1) recs of
                         Inl e \<Rightarrow> Inl e
                       | Inr rows \<Rightarrow> Inr (Str ''name,num_calls,total_ns,average_ns\<newline>'' # rows))
                 else Inr [])
      in (out, lock_guard_release GetMutex w1))"

section \<open>Start/stop pairs on one record\<close>

lemma StopMeasure_eq:
  "StopMeasure st (c, r) =
     (c\<lparr>reads := Suc (reads c)\<rparr>,
      r\<lparr>totalTime := totalTime r + (ticks c (reads c) - st), numCall := numCall r + 1\<rparr>)"
  by (simp add: StopMeasure_def GetTick_def Let_def)

lemma pair_step:
  "TMeasureScope_dtor (fst (TMeasureScope_ctor (c, r))) (snd (TMeasureScope_ctor (c, r))) =
     (c\<lparr>reads := reads c + 2\<rparr>,
      r\<lparr>totalTime := totalTime r + delta c (reads c) 0, numCall := numCall r + 1\<rparr>)"
  by (simp add: TMeasureScope_ctor_def TMeasureScope_dtor_def Now_def GetTick_def
      StopMeasure_eq delta_def)

lemma start_stop_pairs_eq:
  "start_stop_pairs n (c, r) =
     (c\<lparr>reads := reads c + 2 * n\<rparr>,
      r\<lparr>totalTime := totalTime r + (\<Sum>i<n. delta c (reads c) i),
        numCall := numCall r + of_nat n\<rparr>)"
proof (induction n arbitrary: c r)
  case 0
  show ?case by simp
next
  case (Suc n)
  have shift: "delta (c\<lparr>reads := Suc (Suc (reads c))\<rparr>) (Suc (Suc (reads c))) i
      = delta c (reads c) (Suc i)" for i
    by (simp add: delta_def)
  have step: "start_stop_pairs (Suc n) (c, r) =
      start_stop_pairs n (c\<lparr>reads := reads c + 2\<rparr>,
        r\<lparr>totalTime := totalTime r + delta c (reads c) 0, numCall := numCall r + 1\<rparr>)"
    using pair_step [of c r] by (simp add: case_prod_beta)
  show ?case
    unfolding step Suc.IH
    by (simp add: shift sum.lessThan_Suc_shift add.assoc del: sum.lessThan_Suc)
qed

lemma sum_lessThan_3: "(\<Sum>i<(3::nat). f i) = f 0 + f 1 + (f 2 :: 'a::comm_monoid_add)"
  by (simp add: numeral_3_eq_3 numeral_2_eq_2)

text \<open>
  C1. \<open>N\<close> successive start/stop pairs on one record, run one after the other, add
  \<open>N\<close> to \<open>numCall\<close> and add to \<open>totalTime\<close> the sum of the \<open>N\<close> elapsed deltas, each
  delta being the tick read by \<open>StopMeasure\<close> minus the tick captured at the start of the
  pair. On a record whose counters are zero, \<open>numCall\<close> is \<open>N\<close> (as a \<open>uint64_t\<close>, and
  as a number when \<open>N < 2 ^ 64\<close>) and \<open>totalTime\<close> is that sum. One call of
  \<open>StopMeasure\<close> adds exactly one delta and increments \<open>numCall\<close> by exactly one.
\<close>

theorem start_stop_pairs_counts:
  "numCall (snd (start_stop_pairs N (c, r))) = numCall r + of_nat N \<and>
   totalTime (snd (start_stop_pairs N (c, r))) = totalTime r + (\<Sum>i<N. delta c (reads c) i) \<and>
   (numCall r = 0 \<and> totalTime r = 0 \<longrightarrow>
      numCall (snd (start_stop_pairs N (c, r))) = of_nat N \<and>
      totalTime (snd (start_stop_pairs N (c, r))) = (\<Sum>i<N. delta c (reads c) i)) \<and>
   (numCall r = 0 \<and> N < 2 ^ 64 \<longrightarrow> unat (numCall (snd (start_stop_pairs N (c, r)))) = N) \<and>
   snd (StopMeasure st (c, r)) =
     r\<lparr>totalTime := totalTime r + (ticks c (reads c) - st), numCall := numCall r + 1\<rparr>"
  by (simp add: start_stop_pairs_eq StopMeasure_eq unat_of_nat)

theorem start_stop_pairs_counts_witness:
  "numCall \<lparr>name = ''R1'', totalTime = 0, numCall = 0\<rparr> = 0 \<and>
   totalTime \<lparr>name = ''R1'', totalTime = 0, numCall = 0\<rparr> = 0 \<and>
   (3 :: nat) < 2 ^ 64 \<and>
   unat (numCall (snd (start_stop_pairs 3
     (\<lparr>ticks = (\<lambda>i. of_nat (i * i)), reads = 0\<rparr>,
      \<lparr>name = ''R1'', totalTime = 0, numCall = 0\<rparr>)))) = 3 \<and>
   totalTime (snd (start_stop_pairs 3
     (\<lparr>ticks = (\<lambda>i. of_nat (i * i)), reads = 0\<rparr>,
      \<lparr>name = ''R1'', totalTime = 0, numCall = 0\<rparr>))) = 15"
  using start_stop_pairs_counts [of 3 "\<lparr>ticks = (\<lambda>i. of_nat (i * i)), reads = 0\<rparr>"
      "\<lparr>name = ''R1'', totalTime = 0, numCall = 0\<rparr>" 0]
  by (simp add: delta_def sum_lessThan_3)

section \<open>The depth counter and the recursion-aware scope\<close>

lemma sint_inc32:
  fixes d :: "32 word"
  assumes "d \<noteq> 0x7FFFFFFF"
  shows "sint (d + 1) = sint d + 1"
proof -
  have ne: "sint d \<noteq> 2147483647"
    using assms word_eq_iff_signed [of d "0x7FFFFFFF", where ?'a = int] by simp
  have lt: "sint d < 2147483648" using sint_lt [of d] by simp
  have ge: "- 2147483648 \<le> sint d" using sint_ge [of d] by simp
  have "sint (d + 1) = signed_take_bit 31 (sint d + 1)"
    by (simp add: sint_word_ariths)
  also have "\<dots> = sint d + 1"
    using ne lt ge by (intro signed_take_bit_int_eq_self) simp_all
  finally show ?thesis .
qed

lemma sint_dec32:
  fixes d :: "32 word"
  assumes "d \<noteq> 0x80000000"
  shows "sint (d - 1) = sint d - 1"
proof -
  have ne: "sint d \<noteq> - 2147483648"
    using assms word_eq_iff_signed [of d "0x80000000", where ?'a = int] by simp
  have lt: "sint d < 2147483648" using sint_lt [of d] by simp
  have ge: "- 2147483648 \<le> sint d" using sint_ge [of d] by simp
  have "sint (d - 1) = signed_take_bit 31 (sint d - 1)"
    by (simp add: sint_word_ariths)
  also have "\<dots> = sint d - 1"
    using ne lt ge by (intro signed_take_bit_int_eq_self) simp_all
  finally show ?thesis .
qed

lemma sint_max32: "sint (d :: 32 word) = 2147483647 \<longleftrightarrow> d = 0x7FFFFFFF"
  using word_eq_iff_signed [of d "0x7FFFFFFF", where ?'a = int] by simp

lemma sint_min32: "sint (d :: 32 word) = - 2147483648 \<longleftrightarrow> d = 0x80000000"
  using word_eq_iff_signed [of d "0x80000000", where ?'a = int] by simp

lemma sint_one32: "sint (d :: 32 word) = 1 \<longleftrightarrow> d = 1"
  using word_eq_iff_signed [of d 1, where ?'a = int] by simp

lemma sint_zero32: "sint (d :: 32 word) = 0 \<longleftrightarrow> d = 0"
  by (simp add: signed_eq_0_iff)

lemma sint_upper32: "sint (d :: 32 word) \<le> 2147483647"
  using sint_lt [of d] by simp

lemma IncrementDepth_Inr:
  "depth r \<noteq> 0x7FFFFFFF \<Longrightarrow>
     IncrementDepth r = Inr (depth r + 1 = 1, r\<lparr>depth := depth r + 1\<rparr>)"
  by (simp add: IncrementDepth_def Let_def)

lemma DecrementDepth_Inr:
  "depth r \<noteq> 0x80000000 \<Longrightarrow>
     DecrementDepth r = Inr (depth r - 1 = 0, r\<lparr>depth := depth r - 1\<rparr>)"
  by (simp add: DecrementDepth_def Let_def)

lemma ctor_outer:
  "depth r = 0 \<Longrightarrow>
     MeasureScopeRSafe_ctor (c, r) =
       Inr (\<lparr>start_rs = Some (ticks c (reads c))\<rparr>,
            (c\<lparr>reads := Suc (reads c)\<rparr>, r\<lparr>depth := 1\<rparr>))"
  by (simp add: MeasureScopeRSafe_ctor_def IncrementDepth_def Let_def Now_def GetTick_def)

lemma ctor_inner:
  assumes "0 < sint (depth r)" "sint (depth r) < 2147483647"
  shows "MeasureScopeRSafe_ctor (c, r) = Inr (\<lparr>start_rs = None\<rparr>, (c, r\<lparr>depth := depth r + 1\<rparr>))"
proof -
  have ne: "depth r \<noteq> 0x7FFFFFFF" using assms(2) sint_max32 [of "depth r"] by auto
  have "sint (depth r + 1) \<noteq> 1" using assms(1) sint_inc32 [OF ne] by simp
  then have "depth r + 1 \<noteq> 1" using sint_one32 [of "depth r + 1"] by simp
  then show ?thesis
    by (simp add: MeasureScopeRSafe_ctor_def IncrementDepth_Inr [OF ne])
qed

lemma dtor_outer:
  "depth r = 1 \<Longrightarrow>
     MeasureScopeRSafe_dtor \<lparr>start_rs = Some st\<rparr> (c, r) = Inr (StopMeasure st (c, r\<lparr>depth := 0\<rparr>))"
  by (simp add: MeasureScopeRSafe_dtor_def DecrementDepth_def Let_def)

lemma dtor_inner:
  assumes "1 < sint (depth r)"
  shows "MeasureScopeRSafe_dtor scope (c, r) = Inr (c, r\<lparr>depth := depth r - 1\<rparr>)"
proof -
  have ne: "depth r \<noteq> 0x80000000" using assms sint_min32 [of "depth r"] by auto
  have "sint (depth r - 1) \<noteq> 0" using assms sint_dec32 [OF ne] by simp
  then have "depth r - 1 \<noteq> 0" using sint_zero32 [of "depth r - 1"] by simp
  then show ?thesis
    by (simp add: MeasureScopeRSafe_dtor_def DecrementDepth_Inr [OF ne])
qed

lemma RecursiveFunction_inner:
  fixes r :: "'a MeasureRecordRSafe_scheme"
  assumes "0 < sint (depth r)" "sint (depth r) + int level + 1 < 2147483648"
  shows "RecursiveFunction level (c, r) = Inr (c, r)"
  using assms
proof (induction level arbitrary: r)
  case 0
  have ne: "depth r \<noteq> 0x7FFFFFFF" using 0 sint_max32 [of "depth r"] by auto
  have up: "sint (depth r + 1) = sint (depth r) + 1" by (rule sint_inc32 [OF ne])
  have c: "MeasureScopeRSafe_ctor (c, r) = Inr (\<lparr>start_rs = None\<rparr>, (c, r\<lparr>depth := depth r + 1\<rparr>))"
    using 0 by (intro ctor_inner) simp_all
  have d: "MeasureScopeRSafe_dtor \<lparr>start_rs = None\<rparr> (c, r\<lparr>depth := depth r + 1\<rparr>) = Inr (c, r)"
    using dtor_inner [of "r\<lparr>depth := depth r + 1\<rparr>" "\<lparr>start_rs = None\<rparr>" c] 0 up by simp
  show ?case by (simp add: c d)
next
  case (Suc level)
  have ne: "depth r \<noteq> 0x7FFFFFFF" using Suc.prems sint_max32 [of "depth r"] by auto
  have up: "sint (depth r + 1) = sint (depth r) + 1" by (rule sint_inc32 [OF ne])
  have c: "MeasureScopeRSafe_ctor (c, r) = Inr (\<lparr>start_rs = None\<rparr>, (c, r\<lparr>depth := depth r + 1\<rparr>))"
    using Suc.prems by (intro ctor_inner) simp_all
  have body: "RecursiveFunction level (c, r\<lparr>depth := depth r + 1\<rparr>) = Inr (c, r\<lparr>depth := depth r + 1\<rparr>)"
    using Suc.prems up by (intro Suc.IH) simp_all
  have d: "MeasureScopeRSafe_dtor \<lparr>start_rs = None\<rparr> (c, r\<lparr>depth := depth r + 1\<rparr>) = Inr (c, r)"
    using dtor_inner [of "r\<lparr>depth := depth r + 1\<rparr>" "\<lparr>start_rs = None\<rparr>" c] Suc.prems up by simp
  show ?case by (simp add: c body d)
qed

lemma RecursiveFunction_outer:
  fixes r :: "'a MeasureRecordRSafe_scheme"
  assumes "depth r = 0" "int level + 1 < 2147483648"
  shows "RecursiveFunction level (c, r) =
           Inr (c\<lparr>reads := reads c + 2\<rparr>,
                r\<lparr>totalTime := totalTime r + delta c (reads c) 0, numCall := numCall r + 1\<rparr>)"
proof -
  let ?c1 = "c\<lparr>reads := Suc (reads c)\<rparr>"
  let ?r1 = "r\<lparr>depth := 1\<rparr>"
  let ?sc = "\<lparr>start_rs = Some (ticks c (reads c))\<rparr>"
  have c: "MeasureScopeRSafe_ctor (c, r) = Inr (?sc, (?c1, ?r1))"
    by (rule ctor_outer [OF assms(1)])
  have r0: "?r1\<lparr>depth := 0\<rparr> = r" using assms(1) by simp
  have d: "MeasureScopeRSafe_dtor ?sc (?c1, ?r1) =
      Inr (c\<lparr>reads := reads c + 2\<rparr>,
           r\<lparr>totalTime := totalTime r + delta c (reads c) 0, numCall := numCall r + 1\<rparr>)"
    using dtor_outer [of ?r1 "ticks c (reads c)" ?c1] r0
    by (simp add: StopMeasure_eq delta_def)
  show ?thesis
  proof (cases level)
    case 0
    then show ?thesis by (simp add: c d)
  next
    case (Suc l)
    have "RecursiveFunction l (?c1, ?r1) = Inr (?c1, ?r1)"
      using assms(2) Suc by (intro RecursiveFunction_inner) simp_all
    then show ?thesis using Suc by (simp add: c d)
  qed
qed

lemma ctor_some:
  assumes "depth r \<noteq> 0x7FFFFFFF"
  shows "\<exists>scope c'. MeasureScopeRSafe_ctor (c, r) = Inr (scope, (c', r\<lparr>depth := depth r + 1\<rparr>))"
  using assms
  by (simp add: MeasureScopeRSafe_ctor_def IncrementDepth_Inr Now_def GetTick_def)

lemma RecursiveFunction_overflow:
  fixes r :: "'a MeasureRecordRSafe_scheme"
  assumes "2147483648 \<le> sint (depth r) + int level + 1"
  shows "RecursiveFunction level (c, r) = Inl SignedOverflow"
  using assms
proof (induction level arbitrary: c r)
  case 0
  then have "depth r = 0x7FFFFFFF"
    using sint_upper32 [of "depth r"] sint_max32 [of "depth r"] by simp
  then show ?case by (simp add: MeasureScopeRSafe_ctor_def IncrementDepth_def)
next
  case (Suc level)
  show ?case
  proof (cases "depth r = 0x7FFFFFFF")
    case True
    then show ?thesis by (simp add: MeasureScopeRSafe_ctor_def IncrementDepth_def)
  next
    case False
    obtain scope c' where
      c: "MeasureScopeRSafe_ctor (c, r) = Inr (scope, (c', r\<lparr>depth := depth r + 1\<rparr>))"
      using ctor_some [OF False] by blast
    have "RecursiveFunction level (c', r\<lparr>depth := depth r + 1\<rparr>) = Inl SignedOverflow"
      using Suc.prems sint_inc32 [OF False] by (intro Suc.IH) simp
    then show ?thesis by (simp add: c)
  qed
qed

lemma top_level_calls_eq:
  fixes r :: "'a MeasureRecordRSafe_scheme"
  assumes "depth r = 0"
  shows "top_level_calls T level (c, r) =
     (if T = 0 \<or> int level + 1 < 2147483648
      then Inr (c\<lparr>reads := reads c + 2 * T\<rparr>,
                r\<lparr>totalTime := totalTime r + (\<Sum>i<T. delta c (reads c) i),
                  numCall := numCall r + of_nat T\<rparr>)
      else Inl SignedOverflow)"
  using assms
proof (induction T arbitrary: c r)
  case 0
  show ?case by simp
next
  case (Suc T)
  show ?case
  proof (cases "int level + 1 < 2147483648")
    case True
    let ?c1 = "c\<lparr>reads := reads c + 2\<rparr>"
    let ?r1 = "r\<lparr>totalTime := totalTime r + delta c (reads c) 0, numCall := numCall r + 1\<rparr>"
    have shift: "delta (c\<lparr>reads := Suc (Suc (reads c))\<rparr>) (Suc (Suc (reads c))) i
        = delta c (reads c) (Suc i)" for i
      by (simp add: delta_def)
    have one: "RecursiveFunction level (c, r) = Inr (?c1, ?r1)"
      by (rule RecursiveFunction_outer [OF Suc.prems True])
    have step: "top_level_calls (Suc T) level (c, r) = top_level_calls T level (?c1, ?r1)"
      by (simp add: one)
    have "depth ?r1 = 0" using Suc.prems by simp
    from Suc.IH [OF this, of ?c1] True
    have rest: "top_level_calls T level (?c1, ?r1) =
        Inr (?c1\<lparr>reads := reads ?c1 + 2 * T\<rparr>,
             ?r1\<lparr>totalTime := totalTime ?r1 + (\<Sum>i<T. delta ?c1 (reads ?c1) i),
               numCall := numCall ?r1 + of_nat T\<rparr>)"
      by simp
    have fin: "(?c1\<lparr>reads := reads ?c1 + 2 * T\<rparr>,
             ?r1\<lparr>totalTime := totalTime ?r1 + (\<Sum>i<T. delta ?c1 (reads ?c1) i),
               numCall := numCall ?r1 + of_nat T\<rparr>) =
        (c\<lparr>reads := reads c + 2 * Suc T\<rparr>,
         r\<lparr>totalTime := totalTime r + (\<Sum>i<Suc T. delta c (reads c) i),
           numCall := numCall r + of_nat (Suc T)\<rparr>)"
      by (simp add: shift sum.lessThan_Suc_shift add.assoc del: sum.lessThan_Suc)
    show ?thesis
      unfolding step rest fin using True by simp
  next
    case False
    then have "RecursiveFunction level (c, r) = Inl SignedOverflow"
      using Suc.prems by (intro RecursiveFunction_overflow) simp
    then show ?thesis using False by simp
  qed
qed

lemma sum_lessThan_2: "(\<Sum>i<(2::nat). f i) = f 0 + (f 1 :: 'a::comm_monoid_add)"
  by (simp add: numeral_2_eq_2)

text \<open>
  C2. On a recursion-safe record at depth 0, \<open>T\<close> top-level invocations of a
  self-recursive function whose every invocation is wrapped in one recursion-aware scope
  (nesting depth \<open>level + 1\<close>) add \<open>T\<close> to \<open>numCall\<close>, whatever the nesting depth, and
  commit one elapsed delta per top-level invocation: the clock is read twice per top-level
  invocation, at the outermost entry (depth 0 to 1) and, inside \<open>StopMeasure\<close>, at the
  outermost exit (depth 1 to 0). A nested invocation (entered at a depth above 0) leaves
  the clock and the record as they were: its scopes never call \<open>StopMeasure\<close>. This holds
  for every nesting depth the \<open>int32_t\<close> depth counter can count, that is up to
  \<open>2 ^ 31 - 1\<close>; a deeper nesting overflows \<open>depth\<close>, which is undefined in C++.
\<close>

theorem recursion_safe_scope_counts_once:
  fixes r :: "'a MeasureRecordRSafe_scheme"
  shows "depth r = 0 \<Longrightarrow>
     top_level_calls T level (c, r) =
       (if T = 0 \<or> int level + 1 < 2147483648
        then Inr (c\<lparr>reads := reads c + 2 * T\<rparr>,
                  r\<lparr>totalTime := totalTime r + (\<Sum>i<T. delta c (reads c) i),
                    numCall := numCall r + of_nat T\<rparr>)
        else Inl SignedOverflow) \<and>
     (\<forall>r' :: 'a MeasureRecordRSafe_scheme.
        0 < sint (depth r') \<and> sint (depth r') + int level + 1 < 2147483648 \<longrightarrow>
          RecursiveFunction level (c, r') = Inr (c, r'))"
  by (simp add: top_level_calls_eq RecursiveFunction_inner)

theorem recursion_safe_scope_counts_once_witness:
  "depth \<lparr>name = ''RecursiveFunction_2'', totalTime = 0, numCall = 0, depth = 0\<rparr> = 0 \<and>
   top_level_calls 2 9
     (\<lparr>ticks = (\<lambda>i. of_nat (i * i)), reads = 0\<rparr>,
      \<lparr>name = ''RecursiveFunction_2'', totalTime = 0, numCall = 0, depth = 0\<rparr>) =
     Inr (\<lparr>ticks = (\<lambda>i. of_nat (i * i)), reads = 4\<rparr>,
          \<lparr>name = ''RecursiveFunction_2'', totalTime = 6, numCall = 2, depth = 0\<rparr>) \<and>
   0 < sint (depth \<lparr>name = ''RecursiveFunction_2'', totalTime = 0, numCall = 0, depth = 1\<rparr>) \<and>
   RecursiveFunction 9
     (\<lparr>ticks = (\<lambda>i. of_nat (i * i)), reads = 0\<rparr>,
      \<lparr>name = ''RecursiveFunction_2'', totalTime = 0, numCall = 0, depth = 1\<rparr>) =
     Inr (\<lparr>ticks = (\<lambda>i. of_nat (i * i)), reads = 0\<rparr>,
          \<lparr>name = ''RecursiveFunction_2'', totalTime = 0, numCall = 0, depth = 1\<rparr>)"
  using recursion_safe_scope_counts_once
    [of "\<lparr>name = ''RecursiveFunction_2'', totalTime = 0, numCall = 0, depth = 0\<rparr>" 2 9
        "\<lparr>ticks = (\<lambda>i. of_nat (i * i)), reads = 0\<rparr>"]
  by (simp add: delta_def sum_lessThan_2)

lemma max_open_ge: "k \<le> max_open k cs"
  by (induction k cs rule: max_open.induct) auto

lemma depth_calls_trace:
  fixes r :: "'a MeasureRecordRSafe_scheme"
  assumes "sint (depth r) = int k" "properly_nested k cs"
  shows "\<forall>(c, flag, d) \<in> set (fst (depth_calls cs r)).
           0 \<le> sint d \<and> (c = Inc \<longrightarrow> flag = (sint d = 1)) \<and> (c = Dec \<longrightarrow> flag = (sint d = 0))"
  using assms
proof (induction cs arbitrary: k r)
  case Nil
  show ?case by simp
next
  case (Cons c cs)
  show ?case
  proof (cases c)
    case Inc
    show ?thesis
    proof (cases "depth r = 0x7FFFFFFF")
      case True
      then show ?thesis using Inc by (simp add: IncrementDepth_def)
    next
      case False
      let ?r1 = "r\<lparr>depth := depth r + 1\<rparr>"
      have up: "sint (depth ?r1) = int (Suc k)"
        using sint_inc32 [OF False] Cons.prems(1) by simp
      have nest: "properly_nested (Suc k) cs" using Cons.prems(2) Inc by simp
      note IH = Cons.IH [OF up nest]
      have flag: "(depth r + 1 = 1) = (sint (depth r + 1) = 1)"
        by (simp add: sint_one32)
      have "0 \<le> sint (depth r + 1)" using up by simp
      then show ?thesis
        using Inc IH flag
        by (simp add: IncrementDepth_Inr [OF False] GetDepth_def split: prod.splits)
    qed
  next
    case Dec
    have pos: "0 < k" and nest: "properly_nested (k - 1) cs"
      using Cons.prems(2) Dec by simp_all
    have ne: "depth r \<noteq> 0x80000000"
      using Cons.prems(1) pos sint_min32 [of "depth r"] by auto
    let ?r1 = "r\<lparr>depth := depth r - 1\<rparr>"
    have down: "sint (depth ?r1) = int (k - 1)"
      using sint_dec32 [OF ne] Cons.prems(1) pos by simp
    note IH = Cons.IH [OF down nest]
    have flag: "(depth r - 1 = 0) = (sint (depth r - 1) = 0)"
      by (simp add: sint_zero32)
    have "0 \<le> sint (depth r - 1)" using down by simp
    then show ?thesis
      using Dec IH flag
      by (simp add: DecrementDepth_Inr [OF ne] GetDepth_def split: prod.splits)
  qed
qed

lemma depth_calls_complete:
  fixes r :: "'a MeasureRecordRSafe_scheme"
  assumes "sint (depth r) = int k" "properly_nested k cs" "max_open k cs < 2147483648"
  shows "\<exists>r'. snd (depth_calls cs r) = Inr r' \<and> 0 \<le> sint (depth r') \<and>
           length (fst (depth_calls cs r)) = length cs"
  using assms
proof (induction cs arbitrary: k r)
  case Nil
  then show ?case by simp
next
  case (Cons c cs)
  show ?case
  proof (cases c)
    case Inc
    have m: "max_open (Suc k) cs < 2147483648" using Cons.prems(3) Inc by simp
    then have "Suc k < 2147483648" using max_open_ge [of "Suc k" cs] by linarith
    then have ne: "depth r \<noteq> 0x7FFFFFFF"
      using Cons.prems(1) sint_max32 [of "depth r"] by auto
    let ?r1 = "r\<lparr>depth := depth r + 1\<rparr>"
    have up: "sint (depth ?r1) = int (Suc k)"
      using sint_inc32 [OF ne] Cons.prems(1) by simp
    have nest: "properly_nested (Suc k) cs" using Cons.prems(2) Inc by simp
    from Cons.IH [OF up nest m] show ?thesis
      using Inc by (auto simp add: IncrementDepth_Inr [OF ne] split: prod.splits)
  next
    case Dec
    have pos: "0 < k" and nest: "properly_nested (k - 1) cs"
      using Cons.prems(2) Dec by simp_all
    have m: "max_open (k - 1) cs < 2147483648" using Cons.prems(3) Dec by simp
    have ne: "depth r \<noteq> 0x80000000"
      using Cons.prems(1) pos sint_min32 [of "depth r"] by auto
    let ?r1 = "r\<lparr>depth := depth r - 1\<rparr>"
    have down: "sint (depth ?r1) = int (k - 1)"
      using sint_dec32 [OF ne] Cons.prems(1) pos by simp
    from Cons.IH [OF down nest m] show ?thesis
      using Dec by (auto simp add: DecrementDepth_Inr [OF ne] split: prod.splits)
  qed
qed

lemma IncrementDepth_flag:
  "IncrementDepth r = Inr (b, r') \<Longrightarrow> b = (sint (depth r') = 1) \<and> sint (depth r') = sint (depth r) + 1"
  using sint_inc32 [of "depth r"]
  by (auto simp add: IncrementDepth_def Let_def sint_one32 split: if_splits)

lemma DecrementDepth_flag:
  "DecrementDepth r = Inr (b, r') \<Longrightarrow> b = (sint (depth r') = 0) \<and> sint (depth r') = sint (depth r) - 1"
  using sint_dec32 [of "depth r"]
  by (auto simp add: DecrementDepth_def Let_def sint_zero32 split: if_splits)

lemma dtor_effect:
  "MeasureScopeRSafe_dtor scope (c, r) = Inr (c', r') \<Longrightarrow>
     (if sint (depth r') = 0
      then \<exists>st. start_rs scope = Some st \<and> (c', r') = StopMeasure st (c, r\<lparr>depth := 0\<rparr>)
      else (c', r') = (c, r\<lparr>depth := depth r - 1\<rparr>))"
  by (auto simp add: MeasureScopeRSafe_dtor_def DecrementDepth_def Let_def sint_zero32 StopMeasure_eq
      split: if_splits option.splits)

text \<open>
  C8. On a recursion-safe record at depth 0, along every sequence of \<open>IncrementDepth\<close>
  and \<open>DecrementDepth\<close> calls in which each \<open>DecrementDepth\<close> matches an earlier
  unmatched \<open>IncrementDepth\<close>, the depth left by every call is at least 0;
  \<open>IncrementDepth\<close> returns true exactly when the new depth is 1 and \<open>DecrementDepth\<close>
  exactly when the new depth is 0. Every call of the sequence completes as long as no
  more than \<open>2 ^ 31 - 1\<close> scopes are open at once. The destructor of the
  recursion-aware scope calls \<open>StopMeasure\<close> exactly when the depth has returned to 0,
  and otherwise changes nothing but the depth.
\<close>

theorem depth_counter_invariant:
  fixes r :: "'a MeasureRecordRSafe_scheme"
  shows "depth r = 0 \<Longrightarrow> properly_nested 0 cs \<Longrightarrow>
     (\<forall>(c, flag, d) \<in> set (fst (depth_calls cs r)).
         0 \<le> sint d \<and> (c = Inc \<longrightarrow> flag = (sint d = 1)) \<and> (c = Dec \<longrightarrow> flag = (sint d = 0))) \<and>
     (max_open 0 cs < 2147483648 \<longrightarrow>
        (\<exists>r'. snd (depth_calls cs r) = Inr r' \<and> 0 \<le> sint (depth r') \<and>
              length (fst (depth_calls cs r)) = length cs)) \<and>
     (\<forall>(q :: 'a MeasureRecordRSafe_scheme) b q'.
        IncrementDepth q = Inr (b, q') \<longrightarrow> b = (sint (depth q') = 1)) \<and>
     (\<forall>(q :: 'a MeasureRecordRSafe_scheme) b q'.
        DecrementDepth q = Inr (b, q') \<longrightarrow> b = (sint (depth q') = 0)) \<and>
     (\<forall>scope c (q :: 'a MeasureRecordRSafe_scheme) c' q'.
        MeasureScopeRSafe_dtor scope (c, q) = Inr (c', q') \<longrightarrow>
          (if sint (depth q') = 0
           then \<exists>st. start_rs scope = Some st \<and> (c', q') = StopMeasure st (c, q\<lparr>depth := 0\<rparr>)
           else (c', q') = (c, q\<lparr>depth := depth q - 1\<rparr>)))"
proof -
  assume d0: "depth r = 0" and nest: "properly_nested 0 cs"
  have s0: "sint (depth r) = int 0" using d0 by simp
  have tr: "\<forall>(c, flag, d) \<in> set (fst (depth_calls cs r)).
         0 \<le> sint d \<and> (c = Inc \<longrightarrow> flag = (sint d = 1)) \<and> (c = Dec \<longrightarrow> flag = (sint d = 0))"
    by (rule depth_calls_trace [OF s0 nest])
  have co: "max_open 0 cs < 2147483648 \<longrightarrow>
        (\<exists>r'. snd (depth_calls cs r) = Inr r' \<and> 0 \<le> sint (depth r') \<and>
              length (fst (depth_calls cs r)) = length cs)"
    using depth_calls_complete [OF s0 nest] by blast
  have inc: "\<forall>(q :: 'a MeasureRecordRSafe_scheme) b q'.
        IncrementDepth q = Inr (b, q') \<longrightarrow> b = (sint (depth q') = 1)"
    using IncrementDepth_flag by blast
  have dec: "\<forall>(q :: 'a MeasureRecordRSafe_scheme) b q'.
        DecrementDepth q = Inr (b, q') \<longrightarrow> b = (sint (depth q') = 0)"
    using DecrementDepth_flag by blast
  have dt: "\<forall>scope c (q :: 'a MeasureRecordRSafe_scheme) c' q'.
        MeasureScopeRSafe_dtor scope (c, q) = Inr (c', q') \<longrightarrow>
          (if sint (depth q') = 0
           then \<exists>st. start_rs scope = Some st \<and> (c', q') = StopMeasure st (c, q\<lparr>depth := 0\<rparr>)
           else (c', q') = (c, q\<lparr>depth := depth q - 1\<rparr>))"
    using dtor_effect by blast
  from tr co inc dec dt show ?thesis by blast
qed

theorem depth_counter_invariant_witness:
  "depth \<lparr>name = ''R'', totalTime = 0, numCall = 0, depth = 0\<rparr> = 0 \<and>
   properly_nested 0 [Inc, Inc, Dec, Inc, Dec, Dec] \<and>
   max_open 0 [Inc, Inc, Dec, Inc, Dec, Dec] < 2147483648 \<and>
   depth_calls [Inc, Inc, Dec, Inc, Dec, Dec]
       \<lparr>name = ''R'', totalTime = 0, numCall = 0, depth = 0\<rparr> =
     ([(Inc, True, 1), (Inc, False, 2), (Dec, False, 1),
       (Inc, False, 2), (Dec, False, 1), (Dec, True, 0)],
      Inr \<lparr>name = ''R'', totalTime = 0, numCall = 0, depth = 0\<rparr>) \<and>
   list_all (\<lambda>(c, flag, d). 0 \<le> sint d)
     (fst (depth_calls [Inc, Inc, Dec, Inc, Dec, Dec]
       \<lparr>name = ''R'', totalTime = 0, numCall = 0, depth = 0\<rparr>)) \<and>
   IncrementDepth \<lparr>name = ''R'', totalTime = 0, numCall = 0, depth = 0\<rparr> =
     Inr (True, \<lparr>name = ''R'', totalTime = 0, numCall = 0, depth = 1\<rparr>) \<and>
   DecrementDepth \<lparr>name = ''R'', totalTime = 0, numCall = 0, depth = 2\<rparr> =
     Inr (False, \<lparr>name = ''R'', totalTime = 0, numCall = 0, depth = 1\<rparr>) \<and>
   MeasureScopeRSafe_dtor \<lparr>start_rs = Some 3\<rparr>
       (\<lparr>ticks = (\<lambda>i. 10), reads = 1\<rparr>,
        \<lparr>name = ''R'', totalTime = 0, numCall = 0, depth = 1\<rparr>) =
     Inr (\<lparr>ticks = (\<lambda>i. 10), reads = 2\<rparr>,
          \<lparr>name = ''R'', totalTime = 7, numCall = 1, depth = 0\<rparr>) \<and>
   MeasureScopeRSafe_dtor \<lparr>start_rs = None\<rparr>
       (\<lparr>ticks = (\<lambda>i. 10), reads = 1\<rparr>,
        \<lparr>name = ''R'', totalTime = 0, numCall = 0, depth = 2\<rparr>) =
     Inr (\<lparr>ticks = (\<lambda>i. 10), reads = 1\<rparr>,
          \<lparr>name = ''R'', totalTime = 0, numCall = 0, depth = 1\<rparr>)"
  using depth_counter_invariant
    [of "\<lparr>name = ''R'', totalTime = 0, numCall = 0, depth = 0\<rparr>"
        "[Inc, Inc, Dec, Inc, Dec, Dec]"]
  by (simp add: IncrementDepth_def DecrementDepth_def GetDepth_def MeasureScopeRSafe_dtor_def
      StopMeasure_eq)

section \<open>Lookup and reset\<close>

lemma FindMeasureRecord_loop_find:
  "FindMeasureRecord_loop h nm rs = List.find (\<lambda>mr. name (h mr) = nm) rs"
  by (induction rs) auto

lemma FindMeasureRecord_loop_names:
  "(\<And>a. name (h' a) = name (h a)) \<Longrightarrow>
     FindMeasureRecord_loop h' nm rs = FindMeasureRecord_loop h nm rs"
  by (induction rs) auto

lemma ResetAll_loop_eq:
  "ResetAll_loop rs h =
     (\<lambda>a. if a \<in> set rs then (h a)\<lparr>numCall := 0, totalTime := 0\<rparr> else h a)"
proof (induction rs arbitrary: h)
  case Nil
  show ?case by simp
next
  case (Cons mr rs)
  show ?case
    unfolding ResetAll_loop.simps Cons.IH
    by (rule ext) auto
qed

text \<open>
  C7. \<open>FindMeasureRecord\<close> scans the registered records in registration order and
  returns the first record whose name equals the given name; when no registered record
  has that name the result is the null pointer (\<open>None\<close>), not an error.
\<close>

theorem FindMeasureRecord_first_match:
  "FindMeasureRecord nm w = List.find (\<lambda>mr. name (heap w mr) = nm) (records w) \<and>
   (FindMeasureRecord nm w = None \<longleftrightarrow> (\<forall>mr \<in> set (records w). name (heap w mr) \<noteq> nm)) \<and>
   (\<forall>mr. FindMeasureRecord nm w = Some mr \<longleftrightarrow>
      (\<exists>i < length (records w). records w ! i = mr \<and> name (heap w mr) = nm \<and>
         (\<forall>j < i. name (heap w (records w ! j)) \<noteq> nm)))"
  by (auto simp add: FindMeasureRecord_def FindMeasureRecord_loop_find find_None_iff find_Some_iff)

theorem FindMeasureRecord_first_match_witness:
  "FindMeasureRecord ''A'' example_world = Some 0 \<and>
   FindMeasureRecord ''B'' example_world = Some 1 \<and>
   FindMeasureRecord ''C'' example_world = None \<and>
   name (heap example_world 2) = ''A''"
  using FindMeasureRecord_first_match [of "''A''" example_world]
    FindMeasureRecord_first_match [of "''B''" example_world]
    FindMeasureRecord_first_match [of "''C''" example_world]
  by (simp add: example_world_def)

text \<open>
  C6. \<open>ResetAll\<close> sets \<open>numCall\<close> and \<open>totalTime\<close> of every registered record to
  zero, in place, and changes nothing else: the record sequence, its order, the names,
  the members of derived record types, every unregistered object, the dynamic database
  and the allocation frontier are as before, and \<open>FindMeasureRecord\<close> returns for
  every name what it returned before.
\<close>

theorem ResetAll_frame:
  "records (ResetAll w) = records w \<and>
   dynamicRecords (ResetAll w) = dynamicRecords w \<and>
   next_addr (ResetAll w) = next_addr w \<and>
   sync (ResetAll w) = sync w \<and>
   (\<forall>mr \<in> set (records w).
      numCall (heap (ResetAll w) mr) = 0 \<and> totalTime (heap (ResetAll w) mr) = 0 \<and>
      name (heap (ResetAll w) mr) = name (heap w mr) \<and>
      MeasureRecord.more (heap (ResetAll w) mr) = MeasureRecord.more (heap w mr)) \<and>
   (\<forall>a. a \<notin> set (records w) \<longrightarrow> heap (ResetAll w) a = heap w a) \<and>
   (\<forall>nm. FindMeasureRecord nm (ResetAll w) = FindMeasureRecord nm w)"
proof -
  have names: "name (heap (ResetAll w) a) = name (heap w a)" for a
    by (simp add: ResetAll_def ResetAll_loop_eq)
  have "FindMeasureRecord nm (ResetAll w) = FindMeasureRecord nm w" for nm
    unfolding FindMeasureRecord_def
    using FindMeasureRecord_loop_names [of "heap (ResetAll w)" "heap w", OF names]
    by (simp add: ResetAll_def)
  then show ?thesis
    by (simp add: ResetAll_def ResetAll_loop_eq)
qed

theorem ResetAll_frame_witness:
  "1 \<in> set (records example_world) \<and>
   numCall (heap example_world 1) = 2 \<and>
   numCall (heap (ResetAll example_world) 1) = 0 \<and>
   totalTime (heap (ResetAll example_world) 1) = 0 \<and>
   name (heap (ResetAll example_world) 1) = ''B'' \<and>
   records (ResetAll example_world) = [0, 1, 2] \<and>
   FindMeasureRecord ''B'' (ResetAll example_world) = Some 1 \<and>
   5 \<notin> set (records example_world) \<and>
   heap (ResetAll example_world) 5 = heap example_world 5"
  using ResetAll_frame [of example_world]
  by (simp add: example_world_def FindMeasureRecord_def)

section \<open>The dynamic database\<close>

lemma GetOrAddDynamicRecord_found:
  "dynamicRecords w nm = Some p \<Longrightarrow>
     GetOrAddDynamicRecord derived nm w =
       (p, w\<lparr>sync := sync w @ [Lock DynamicDatabaseMutex, Unlock DynamicDatabaseMutex]\<rparr>)"
  by (simp add: GetOrAddDynamicRecord_def lock_guard_def lock_guard_release_def)

lemma GetOrAddDynamicRecord_new:
  "dynamicRecords w nm = None \<Longrightarrow>
     GetOrAddDynamicRecord derived nm w =
       (Some (next_addr w),
        w\<lparr>heap := (heap w)
              (next_addr w := \<lparr>name = nm, totalTime = 0, numCall = 0, \<dots> = derived\<rparr>),
          next_addr := Suc (next_addr w),
          records := records w @ [next_addr w],
          dynamicRecords := (dynamicRecords w)(nm \<mapsto> Some (next_addr w)),
          sync := sync w @ [Lock DynamicDatabaseMutex, Lock DatabaseMutex,
                            Unlock DatabaseMutex, Unlock DynamicDatabaseMutex]\<rparr>)"
  by (simp add: GetOrAddDynamicRecord_def lock_guard_def lock_guard_release_def
      operator_new_def TMeasureRecord_def AddRecord_def Let_def)

lemma GetOrAddDynamicRecord_stored:
  assumes "GetOrAddDynamicRecord derived nm w = (p, w1)"
  shows "dynamicRecords w1 nm = Some p"
    and "dynamicRecords w nm' = Some q \<Longrightarrow> dynamicRecords w1 nm' = Some q"
    and "dynamic_inv w \<Longrightarrow> dynamic_inv w1"
proof -
  show "dynamicRecords w1 nm = Some p"
  proof (cases "dynamicRecords w nm")
    case None
    then show ?thesis using assms GetOrAddDynamicRecord_new [OF None, of derived] by auto
  next
    case (Some p')
    then show ?thesis using assms GetOrAddDynamicRecord_found [OF Some, of derived] by auto
  qed
  show "dynamicRecords w1 nm' = Some q" if "dynamicRecords w nm' = Some q"
  proof (cases "dynamicRecords w nm")
    case None
    then show ?thesis using that assms GetOrAddDynamicRecord_new [OF None, of derived] by auto
  next
    case (Some p')
    then show ?thesis using that assms GetOrAddDynamicRecord_found [OF Some, of derived] by auto
  qed
  show "dynamic_inv w1" if inv: "dynamic_inv w"
  proof (cases "dynamicRecords w nm")
    case None
    have w1: "dynamicRecords w1 = (dynamicRecords w)(nm \<mapsto> Some (next_addr w))"
      "next_addr w1 = Suc (next_addr w)"
      using assms GetOrAddDynamicRecord_new [OF None, of derived] by auto
    have old: "\<exists>a. q = Some a \<and> a < next_addr w" if "dynamicRecords w n = Some q" for n q
      using inv that unfolding dynamic_inv_def by blast
    have inj: "n = n'" if "dynamicRecords w n = Some q" "dynamicRecords w n' = Some q" for n n' q
      using inv that unfolding dynamic_inv_def by blast
    show ?thesis
      unfolding dynamic_inv_def w1
    proof (intro conjI allI impI)
      fix n q assume "((dynamicRecords w)(nm \<mapsto> Some (next_addr w))) n = Some q"
      then show "\<exists>a. q = Some a \<and> a < Suc (next_addr w)"
        using old [of n q] by (auto split: if_splits)
    next
      fix n n' q
      assume "((dynamicRecords w)(nm \<mapsto> Some (next_addr w))) n = Some q \<and>
              ((dynamicRecords w)(nm \<mapsto> Some (next_addr w))) n' = Some q"
      then show "n = n'"
        using old [of n q] old [of n' q] inj [of n q n'] by (auto split: if_splits)
    qed
  next
    case (Some p')
    then have "dynamicRecords w1 = dynamicRecords w" "next_addr w1 = next_addr w"
      using assms GetOrAddDynamicRecord_found [OF Some, of derived] by auto
    then show ?thesis using inv by (simp add: dynamic_inv_def)
  qed
qed

lemma GetOrAddDynamicRecord_calls_stored:
  assumes "GetOrAddDynamicRecord_calls derived nms w = (ps, w')"
  shows "length ps = length nms \<and>
         (\<forall>i < length nms. dynamicRecords w' (nms ! i) = Some (ps ! i)) \<and>
         (\<forall>nm q. dynamicRecords w nm = Some q \<longrightarrow> dynamicRecords w' nm = Some q) \<and>
         (dynamic_inv w \<longrightarrow> dynamic_inv w')"
  using assms
proof (induction nms arbitrary: w ps w')
  case Nil
  then show ?case by simp
next
  case (Cons nm nms)
  obtain p w1 where one: "GetOrAddDynamicRecord derived nm w = (p, w1)"
    by (cases "GetOrAddDynamicRecord derived nm w")
  obtain ps1 w2 where rest: "GetOrAddDynamicRecord_calls derived nms w1 = (ps1, w2)"
    by (cases "GetOrAddDynamicRecord_calls derived nms w1")
  have res: "ps = p # ps1" "w' = w2" using Cons.prems one rest by simp_all
  note IH = Cons.IH [OF rest]
  note st = GetOrAddDynamicRecord_stored [OF one]
  have len: "length ps = length (nm # nms)" using IH res by simp
  have stored: "dynamicRecords w' ((nm # nms) ! i) = Some (ps ! i)" if "i < length (nm # nms)" for i
  proof (cases i)
    case 0
    then show ?thesis using IH st(1) res by simp
  next
    case (Suc j)
    then show ?thesis using IH that res by simp
  qed
  have keep: "dynamicRecords w' n = Some q" if "dynamicRecords w n = Some q" for n q
    using IH st(2) [OF that] res by simp
  have inv: "dynamic_inv w'" if "dynamic_inv w"
    using IH st(3) [OF that] res by simp
  show ?case using len stored keep inv by blast
qed

lemma dynamic_inv_initial: "dynamic_inv (initial_world h)"
  by (simp add: dynamic_inv_def initial_world_def)

text \<open>
  C3. \<open>GetOrAddDynamicRecord\<close> is idempotent per name. A first call for a name creates a
  new record at a fresh address, with zero counters, constructed with \<open>autoRegister\<close>
  true and therefore appended to the record sequence of the plain database, stores it in
  the owned mapping and returns it. A second call with the same name returns the same
  pointer and creates nothing. Along any sequence of calls, two calls return the same
  record exactly when their names are equal, and no call returns a null pointer.
\<close>

theorem GetOrAddDynamicRecord_idempotent:
  fixes w :: "'a world"
  shows
  "(dynamicRecords w nm = None \<longrightarrow>
      fst (GetOrAddDynamicRecord derived nm w) = Some (next_addr w) \<and>
      heap (snd (GetOrAddDynamicRecord derived nm w)) (next_addr w) =
        \<lparr>name = nm, totalTime = 0, numCall = 0, \<dots> = derived\<rparr> \<and>
      records (snd (GetOrAddDynamicRecord derived nm w)) = records w @ [next_addr w] \<and>
      dynamicRecords (snd (GetOrAddDynamicRecord derived nm w)) =
        (dynamicRecords w)(nm \<mapsto> Some (next_addr w)) \<and>
      next_addr (snd (GetOrAddDynamicRecord derived nm w)) = Suc (next_addr w)) \<and>
   (\<forall>p w1. GetOrAddDynamicRecord derived nm w = (p, w1) \<longrightarrow>
      fst (GetOrAddDynamicRecord derived nm w1) = p \<and>
      heap (snd (GetOrAddDynamicRecord derived nm w1)) = heap w1 \<and>
      records (snd (GetOrAddDynamicRecord derived nm w1)) = records w1 \<and>
      dynamicRecords (snd (GetOrAddDynamicRecord derived nm w1)) = dynamicRecords w1 \<and>
      next_addr (snd (GetOrAddDynamicRecord derived nm w1)) = next_addr w1) \<and>
   (dynamic_inv w \<longrightarrow>
      dynamic_inv (snd (GetOrAddDynamicRecord_calls derived nms w)) \<and>
      length (fst (GetOrAddDynamicRecord_calls derived nms w)) = length nms \<and>
      (\<forall>i < length nms. fst (GetOrAddDynamicRecord_calls derived nms w) ! i \<noteq> None) \<and>
      (\<forall>i < length nms. \<forall>j < length nms.
         (fst (GetOrAddDynamicRecord_calls derived nms w) ! i =
          fst (GetOrAddDynamicRecord_calls derived nms w) ! j) = (nms ! i = nms ! j)))"
proof (intro conjI impI allI)
  assume none: "dynamicRecords w nm = None"
  note new = GetOrAddDynamicRecord_new [OF none, of derived]
  show "fst (GetOrAddDynamicRecord derived nm w) = Some (next_addr w)"
    and "heap (snd (GetOrAddDynamicRecord derived nm w)) (next_addr w) =
        \<lparr>name = nm, totalTime = 0, numCall = 0, \<dots> = derived\<rparr>"
    and "records (snd (GetOrAddDynamicRecord derived nm w)) = records w @ [next_addr w]"
    and "dynamicRecords (snd (GetOrAddDynamicRecord derived nm w)) =
        (dynamicRecords w)(nm \<mapsto> Some (next_addr w))"
    and "next_addr (snd (GetOrAddDynamicRecord derived nm w)) = Suc (next_addr w)"
    by (simp_all add: new)
next
  fix p w1 assume one: "GetOrAddDynamicRecord derived nm w = (p, w1)"
  have "dynamicRecords w1 nm = Some p" by (rule GetOrAddDynamicRecord_stored(1) [OF one])
  note again = GetOrAddDynamicRecord_found [OF this, of derived]
  show "fst (GetOrAddDynamicRecord derived nm w1) = p"
    and "heap (snd (GetOrAddDynamicRecord derived nm w1)) = heap w1"
    and "records (snd (GetOrAddDynamicRecord derived nm w1)) = records w1"
    and "dynamicRecords (snd (GetOrAddDynamicRecord derived nm w1)) = dynamicRecords w1"
    and "next_addr (snd (GetOrAddDynamicRecord derived nm w1)) = next_addr w1"
    by (simp_all add: again)
next
  assume inv: "dynamic_inv w"
  obtain ps w' where run: "GetOrAddDynamicRecord_calls derived nms w = (ps, w')"
    by (cases "GetOrAddDynamicRecord_calls derived nms w")
  note st = GetOrAddDynamicRecord_calls_stored [OF run]
  have inv': "dynamic_inv w'" using st inv by blast
  have stored: "dynamicRecords w' (nms ! i) = Some (ps ! i)" if "i < length nms" for i
    using st that by blast
  show "dynamic_inv (snd (GetOrAddDynamicRecord_calls derived nms w))"
    using inv' run by simp
  show "length (fst (GetOrAddDynamicRecord_calls derived nms w)) = length nms"
    using st run by simp
  show "fst (GetOrAddDynamicRecord_calls derived nms w) ! i \<noteq> None" if "i < length nms" for i
    using stored [OF that] inv' run unfolding dynamic_inv_def by fastforce
  show "(fst (GetOrAddDynamicRecord_calls derived nms w) ! i =
          fst (GetOrAddDynamicRecord_calls derived nms w) ! j) = (nms ! i = nms ! j)"
    if "i < length nms" "j < length nms" for i j
  proof
    assume "fst (GetOrAddDynamicRecord_calls derived nms w) ! i =
            fst (GetOrAddDynamicRecord_calls derived nms w) ! j"
    then have "ps ! i = ps ! j" using run by simp
    then have "dynamicRecords w' (nms ! i) = Some (ps ! i) \<and> dynamicRecords w' (nms ! j) = Some (ps ! i)"
      using stored [OF that(1)] stored [OF that(2)] by simp
    then show "nms ! i = nms ! j" using inv' unfolding dynamic_inv_def by blast
  next
    assume "nms ! i = nms ! j"
    then have "Some (ps ! i) = Some (ps ! j)"
      using stored [OF that(1)] stored [OF that(2)] by simp
    then show "fst (GetOrAddDynamicRecord_calls derived nms w) ! i =
            fst (GetOrAddDynamicRecord_calls derived nms w) ! j" using run by simp
  qed
qed

theorem GetOrAddDynamicRecord_idempotent_witness:
  "dynamic_inv (initial_world (\<lambda>a. \<lparr>name = [], totalTime = 0, numCall = 0\<rparr>)) \<and>
   dynamicRecords (initial_world (\<lambda>a. \<lparr>name = [], totalTime = 0, numCall = 0\<rparr>)) ''X'' = None \<and>
   fst (GetOrAddDynamicRecord () ''X''
         (initial_world (\<lambda>a. \<lparr>name = [], totalTime = 0, numCall = 0\<rparr>))) = Some 0 \<and>
   fst (GetOrAddDynamicRecord_calls () [''X'', ''X'', ''Y'']
         (initial_world (\<lambda>a. \<lparr>name = [], totalTime = 0, numCall = 0\<rparr>))) =
     [Some 0, Some 0, Some 1] \<and>
   records (snd (GetOrAddDynamicRecord_calls () [''X'', ''X'', ''Y'']
         (initial_world (\<lambda>a. \<lparr>name = [], totalTime = 0, numCall = 0\<rparr>)))) = [0, 1] \<and>
   name (heap (snd (GetOrAddDynamicRecord_calls () [''X'', ''X'', ''Y'']
         (initial_world (\<lambda>a. \<lparr>name = [], totalTime = 0, numCall = 0\<rparr>)))) 1) = ''Y''"
proof -
  let ?w = "initial_world (\<lambda>a. \<lparr>name = [], totalTime = 0, numCall = 0\<rparr>) :: unit world"
  have inv: "dynamic_inv ?w" by (rule dynamic_inv_initial)
  have none: "dynamicRecords ?w ''X'' = None" by (simp add: initial_world_def)
  have first: "fst (GetOrAddDynamicRecord () ''X'' ?w) = Some 0"
    using GetOrAddDynamicRecord_idempotent
      [where w = ?w and nm = "''X''" and derived = "()" and nms = "[]"] none
    by (simp add: initial_world_def)
  have run: "GetOrAddDynamicRecord_calls () [''X'', ''X'', ''Y''] ?w =
      ([Some 0, Some 0, Some 1],
       \<lparr>heap = (\<lambda>a. \<lparr>name = [], totalTime = 0, numCall = 0\<rparr>)
                (0 := \<lparr>name = ''X'', totalTime = 0, numCall = 0\<rparr>,
                 1 := \<lparr>name = ''Y'', totalTime = 0, numCall = 0\<rparr>),
        next_addr = 2, records = [0, 1],
        dynamicRecords = [''X'' \<mapsto> Some 0, ''Y'' \<mapsto> Some 1],
        sync = [Lock DynamicDatabaseMutex, Lock DatabaseMutex, Unlock DatabaseMutex,
                Unlock DynamicDatabaseMutex,
                Lock DynamicDatabaseMutex, Unlock DynamicDatabaseMutex,
                Lock DynamicDatabaseMutex, Lock DatabaseMutex, Unlock DatabaseMutex,
                Unlock DynamicDatabaseMutex]\<rparr>)"
    by (simp add: initial_world_def GetOrAddDynamicRecord_def lock_guard_def
        lock_guard_release_def operator_new_def TMeasureRecord_def AddRecord_def Let_def)
  show ?thesis unfolding run using inv none first by simp
qed

section \<open>The reports\<close>

lemma double_of_uint64_zero: "double_of_uint64 n = 0 \<longleftrightarrow> n = 0"
  by (simp add: double_of_uint64_def unsigned_eq_0_iff)

lemma TimeToStrNs_not_div: "TimeToStrNs x \<noteq> Inl DivisionByZero"
  by (simp add: TimeToStrNs_def uint64_of_double_def Let_def split: sum.splits)

lemma PrintReport_row_cases:
  "PrintReport_row b r =
     (if GetTotalSec b r < 0 \<or> numCall r = 0
      then Inr [Setw 40, Str (name r), Setw 12, UInt (numCall r), Str ''\<newline>'']
      else (case TimeToStrNs (GetTotalSec b r) of
              Inl e \<Rightarrow> Inl e
            | Inr total_str \<Rightarrow>
                (case TimeToStrNs (GetTotalSec b r / double_of_uint64 (numCall r)) of
                   Inl e \<Rightarrow> Inl e
                 | Inr average_str \<Rightarrow>
                     Inr [Setw 40, Str (name r), Setw 12, UInt (numCall r),
                          Setw 17, Str total_str, Setw 17, Str average_str,
                          Str ''\<newline>''])))"
  by (simp add: PrintReport_row_def Let_def fdiv_def double_of_uint64_zero split: sum.splits)

lemma CsvReport_row_cases:
  "CsvReport_row b r =
     (if GetTotalSec b r < 0 \<or> numCall r = 0
      then Inr [Str (name r), Str '','', UInt (numCall r), Str '','', Str '',\<newline>'']
      else Inr [Str (name r), Str '','', UInt (numCall r), Str '','',
                Fixed, Dbl (GetTotalSec b r * 1000000000), Str '','',
                Fixed, Dbl (GetTotalSec b r * 1000000000 / double_of_uint64 (numCall r)),
                Str ''\<newline>''])"
  by (simp add: CsvReport_row_def Let_def fdiv_def double_of_uint64_zero)

lemma PrintReport_row_not_div: "PrintReport_row b r \<noteq> Inl DivisionByZero"
  using TimeToStrNs_not_div
  by (auto simp add: PrintReport_row_cases split: sum.splits)

lemma CsvReport_row_not_div: "CsvReport_row b r \<noteq> Inl DivisionByZero"
  by (simp add: CsvReport_row_cases)

lemma PrintReport_loop_not_div: "PrintReport_loop b h rs \<noteq> Inl DivisionByZero"
  using PrintReport_row_not_div
  by (induction rs) (auto split: sum.splits)

lemma CsvReport_loop_not_div: "CsvReport_loop b h rs \<noteq> Inl DivisionByZero"
  using CsvReport_row_not_div
  by (induction rs) (auto split: sum.splits)

lemma string_fill_not_div: "string_fill n ch \<noteq> Inl DivisionByZero"
  by (simp add: string_fill_def)

lemma PrintReport_not_div: "fst (PrintReport b w) \<noteq> Inl DivisionByZero"
  using PrintReport_loop_not_div [of b "heap w" "records w"]
    string_fill_not_div [of "(86 - of_nat (length (GetMeasureTitle b))) div 2 - 1" "CHR ''-''"]
  by (auto simp add: PrintReport_def Let_def split: sum.splits)

lemma CsvReport_not_div: "fst (CsvReport b w) \<noteq> Inl DivisionByZero"
  using CsvReport_loop_not_div [of b "heap (lock_guard GetMutex w)" "GetRecords (lock_guard GetMutex w)"]
  by (auto simp add: CsvReport_def Let_def split: sum.splits)

lemma PrintReport_world: "snd (PrintReport b w) = w"
  by (simp add: PrintReport_def Let_def split: sum.splits)

lemma CsvReport_world:
  "snd (CsvReport b w) = w\<lparr>sync := sync w @ [Lock DatabaseMutex, Unlock DatabaseMutex]\<rparr>"
  by (simp add: CsvReport_def Let_def lock_guard_def lock_guard_release_def GetMutex_def)

lemma AddRecord_eq:
  "AddRecord mr w =
     w\<lparr>records := records w @ [mr],
       sync := sync w @ [Lock DatabaseMutex, Unlock DatabaseMutex]\<rparr>"
  by (simp add: AddRecord_def Let_def lock_guard_def lock_guard_release_def)

lemma CsvReport_out:
  "fst (CsvReport b w) =
     (if records w \<noteq> []
      then (case CsvReport_loop b (heap w) (records w) of
              Inl e \<Rightarrow> Inl e
            | Inr rows \<Rightarrow> Inr (Str ''name,num_calls,total_ns,average_ns\<newline>'' # rows))
      else Inr [])"
  by (simp add: CsvReport_def Let_def lock_guard_def GetRecords_def)

text \<open>
  C4. In both reports a row leaves out the numeric time fields exactly when the record's
  call count is zero or its total seconds is negative: the text row then inserts only the
  name and the call count, and the CSV row inserts the name, the call count and the
  empty pair of fields \<open>,,\<close>. Otherwise all four fields are inserted; this includes a
  record with calls whose total is exactly zero seconds, as every record of the null
  backend is.
\<close>

theorem report_row_time_fields:
  "(PrintReport_row b r = Inr [Setw 40, Str (name r), Setw 12, UInt (numCall r), Str ''\<newline>'']
      \<longleftrightarrow> numCall r = 0 \<or> GetTotalSec b r < 0) \<and>
   (CsvReport_row b r = Inr [Str (name r), Str '','', UInt (numCall r), Str '','', Str '',\<newline>'']
      \<longleftrightarrow> numCall r = 0 \<or> GetTotalSec b r < 0) \<and>
   (\<not> (numCall r = 0 \<or> GetTotalSec b r < 0) \<longrightarrow>
      CsvReport_row b r =
        Inr [Str (name r), Str '','', UInt (numCall r), Str '','',
             Fixed, Dbl (GetTotalSec b r * 1000000000), Str '','',
             Fixed, Dbl (GetTotalSec b r * 1000000000 / double_of_uint64 (numCall r)),
             Str ''\<newline>''] \<and>
      PrintReport_row b r =
        (case TimeToStrNs (GetTotalSec b r) of
           Inl e \<Rightarrow> Inl e
         | Inr total_str \<Rightarrow>
             (case TimeToStrNs (GetTotalSec b r / double_of_uint64 (numCall r)) of
                Inl e \<Rightarrow> Inl e
              | Inr average_str \<Rightarrow>
                  Inr [Setw 40, Str (name r), Setw 12, UInt (numCall r),
                       Setw 17, Str total_str, Setw 17, Str average_str,
                       Str ''\<newline>''])))"
  by (auto simp add: PrintReport_row_cases CsvReport_row_cases split: sum.splits)

theorem report_row_time_fields_witness:
  "\<not> (numCall \<lparr>name = ''A'', totalTime = 1500000, numCall = 2\<rparr> = 0 \<or>
       GetTotalSec CppBackend \<lparr>name = ''A'', totalTime = 1500000, numCall = 2\<rparr> < 0) \<and>
   CsvReport_row CppBackend \<lparr>name = ''A'', totalTime = 1500000, numCall = 2\<rparr> =
     Inr [Str ''A'', Str '','', UInt 2, Str '','',
          Fixed, Dbl 1500000, Str '','', Fixed, Dbl 750000, Str ''\<newline>''] \<and>
   PrintReport_row CppBackend \<lparr>name = ''A'', totalTime = 1500000, numCall = 2\<rparr> =
     Inr [Setw 40, Str ''A'', Setw 12, UInt 2,
          Setw 17, Str (''1'' @ [CHR 0x27] @ ''500'' @ [CHR 0x27] @ ''000''),
          Setw 17, Str (''750'' @ [CHR 0x27] @ ''000''), Str ''\<newline>''] \<and>
   GetTotalSec CppBackend \<lparr>name = ''A'', totalTime = - 1, numCall = 2\<rparr> < 0 \<and>
   CsvReport_row CppBackend \<lparr>name = ''A'', totalTime = - 1, numCall = 2\<rparr> =
     Inr [Str ''A'', Str '','', UInt 2, Str '','', Str '',\<newline>'']"
  using report_row_time_fields [of CppBackend "\<lparr>name = ''A'', totalTime = 1500000, numCall = 2\<rparr>"]
    report_row_time_fields [of CppBackend "\<lparr>name = ''A'', totalTime = - 1, numCall = 2\<rparr>"]
  by (simp add: GetTotalSec_def CppBackend_def double_of_uint64_def
      TimeToStrNs_def uint64_of_double_def FormatWithSeparator_def Let_def)

theorem report_row_zero_total_counterexample:
  "\<not> ((PrintReport_row MeasureBackend \<lparr>name = ''A'', totalTime = 0, numCall = 1\<rparr> =
          Inr [Setw 40, Str ''A'', Setw 12, UInt 1, Str ''\<newline>''] \<and>
        CsvReport_row MeasureBackend \<lparr>name = ''A'', totalTime = 0, numCall = 1\<rparr> =
          Inr [Str ''A'', Str '','', UInt 1, Str '','', Str '',\<newline>''])
       \<longleftrightarrow>
       (numCall \<lparr>name = ''A'', totalTime = 0, numCall = 1\<rparr> = 0 \<or>
        GetTotalSec MeasureBackend \<lparr>name = ''A'', totalTime = 0, numCall = 1\<rparr> \<le> 0))"
  by (simp add: PrintReport_row_cases CsvReport_row_cases GetTotalSec_def MeasureBackend_def)

text \<open>
  C5. Of the operations on the database, \<open>AddRecord\<close> and \<open>CsvReport\<close> acquire and
  release the database's mutex around their work. \<open>ResetAll\<close> zeroes the counters of a
  registered record, and \<open>PrintReport\<close> iterates the record sequence, without any
  acquisition of the mutex.
\<close>

theorem ResetAll_and_PrintReport_take_no_lock:
  "sync (ResetAll example_world) = sync example_world \<and>
   numCall (heap example_world 1) = 2 \<and>
   numCall (heap (ResetAll example_world) 1) = 0 \<and>
   sync (snd (PrintReport CppBackend example_world)) = sync example_world \<and>
   sync (AddRecord 3 example_world) =
     sync example_world @ [Lock DatabaseMutex, Unlock DatabaseMutex] \<and>
   sync (snd (CsvReport CppBackend example_world)) =
     sync example_world @ [Lock DatabaseMutex, Unlock DatabaseMutex]"
  by (simp add: PrintReport_world CsvReport_world AddRecord_eq ResetAll_def ResetAll_loop_eq
      example_world_def)

text \<open>
  C9. Neither report ever divides by zero: the division by \<open>double(numCall)\<close> is
  evaluated only on the branch where \<open>numCall\<close> is not zero, where the divisor is not
  zero either, and a record with \<open>numCall = 0\<close> gets the row without time fields.
\<close>

theorem reports_never_divide_by_zero:
  "fst (PrintReport b w) \<noteq> Inl DivisionByZero \<and>
   fst (CsvReport b w) \<noteq> Inl DivisionByZero \<and>
   (numCall r = 0 \<longrightarrow>
      PrintReport_row b r =
        Inr [Setw 40, Str (name r), Setw 12, UInt (numCall r), Str ''\<newline>''] \<and>
      CsvReport_row b r =
        Inr [Str (name r), Str '','', UInt (numCall r), Str '','', Str '',\<newline>'']) \<and>
   (numCall r \<noteq> 0 \<longrightarrow>
      fdiv x (double_of_uint64 (numCall r)) = Inr (x / double_of_uint64 (numCall r))) \<and>
   (fdiv x y = Inl DivisionByZero \<longleftrightarrow> y = 0)"
  by (simp add: PrintReport_not_div CsvReport_not_div PrintReport_row_cases CsvReport_row_cases
      fdiv_def double_of_uint64_zero)

theorem reports_never_divide_by_zero_witness:
  "numCall (heap example_world 2) = 0 \<and>
   fst (CsvReport CppBackend example_world) =
     Inr [Str ''name,num_calls,total_ns,average_ns\<newline>'',
          Str ''A'', Str '','', UInt 1, Str '','', Fixed, Dbl 5, Str '','', Fixed, Dbl 5,
          Str ''\<newline>'',
          Str ''B'', Str '','', UInt 2, Str '','', Fixed, Dbl 7, Str '','', Fixed, Dbl (7 / 2),
          Str ''\<newline>'',
          Str ''A'', Str '','', UInt 0, Str '','', Str '',\<newline>''] \<and>
   fst (PrintReport CppBackend example_world) \<noteq> Inl DivisionByZero \<and>
   PrintReport_row CppBackend (heap example_world 2) =
     Inr [Setw 40, Str ''A'', Setw 12, UInt 0, Str ''\<newline>'']"
proof -
  have csv: "fst (CsvReport CppBackend example_world) =
     Inr [Str ''name,num_calls,total_ns,average_ns\<newline>'',
          Str ''A'', Str '','', UInt 1, Str '','', Fixed, Dbl 5, Str '','', Fixed, Dbl 5,
          Str ''\<newline>'',
          Str ''B'', Str '','', UInt 2, Str '','', Fixed, Dbl 7, Str '','', Fixed, Dbl (7 / 2),
          Str ''\<newline>'',
          Str ''A'', Str '','', UInt 0, Str '','', Str '',\<newline>'']"
    by (simp add: CsvReport_out example_world_def CsvReport_row_cases GetTotalSec_def
        CppBackend_def double_of_uint64_def)
  have zero: "numCall (heap example_world 2) = 0" by (simp add: example_world_def)
  from reports_never_divide_by_zero [of CppBackend example_world "heap example_world 2" 0 0] zero
  have "fst (PrintReport CppBackend example_world) \<noteq> Inl DivisionByZero"
    and "PrintReport_row CppBackend (heap example_world 2) =
        Inr [Setw 40, Str (name (heap example_world 2)), Setw 12,
             UInt (numCall (heap example_world 2)), Str ''\<newline>'']"
    by simp_all
  then show ?thesis using zero csv by (simp add: example_world_def)
qed

text \<open>
  C10. When the database holds no record, \<open>PrintReport\<close> inserts nothing into the
  stream (no banner, no column header, no rule) and \<open>CsvReport\<close> inserts nothing
  either, not even the header row.
\<close>

theorem empty_database_writes_nothing:
  "records w = [] \<Longrightarrow>
     fst (PrintReport b w) = Inr [] \<and> fst (CsvReport b w) = Inr []"
  by (simp add: PrintReport_def CsvReport_out)


theorem empty_database_writes_nothing_witness:
  "records (initial_world (\<lambda>a. \<lparr>name = [], totalTime = 0, numCall = 0\<rparr>)) = [] \<and>
   fst (PrintReport CppBackend (initial_world (\<lambda>a. \<lparr>name = [], totalTime = 0, numCall = 0\<rparr>)))
     = Inr [] \<and>
   fst (CsvReport CppBackend (initial_world (\<lambda>a. \<lparr>name = [], totalTime = 0, numCall = 0\<rparr>)))
     = Inr []"
  using empty_database_writes_nothing
    [of "initial_world (\<lambda>a. \<lparr>name = [], totalTime = 0, numCall = 0\<rparr>)" CppBackend]
  by (simp add: initial_world_def)

end
